theory Spec2Isabelle
  imports Main "HOL-Library.AList" "HOL-Library.Char_ord" "HOL-Library.List_Lexorder"
begin

section \<open>Data model (models.py)\<close>

text \<open>
  Character identifiers, dungeon names, run identifiers and timestamps are Python
  strings. Timestamps are compared with Python's \<open><\<close> on \<open>str\<close>, which is the
  lexicographic order on code points: the order of \<open>string\<close> given by
  \<open>List_Lexorder\<close> over \<open>Char_ord\<close>. Difficulty levels are Python integers.
\<close>

record DungeonCompletion =
  character_id :: string
  dungeon_name :: string
  difficulty_level :: int
  first_completed :: string
  run_id :: string

text \<open>The edge's field \<open>run_id\<close> is called \<open>edge_run_id\<close>, since the completion
  record already owns the name.\<close>

record PropagationEdge =
  source :: string
  target :: string
  dungeon :: string
  edge_run_id :: string

text \<open>The only exception the modelled code can raise: \<open>min()\<close> or \<open>max()\<close> of an
  empty sequence.\<close>

datatype error = ValueError

section \<open>The in-memory repository (inmemory\_repository.py)\<close>

text \<open>
  A Python \<open>dict\<close> keeps its keys in insertion order and the loops below iterate over
  \<open>items()\<close>, so a dictionary is an association list: \<open>map_of\<close> is \<open>get\<close>,
  \<open>AList.update\<close> is item assignment (it replaces the value of a present key in place
  and appends an absent key at the end).
\<close>

type_synonym level_dict = "(int \<times> DungeonCompletion) list"
type_synonym completions_dict = "(string \<times> (string \<times> level_dict) list) list"
type_synonym rosters_dict = "(string \<times> string list) list"

record Repository =
  completions :: completions_dict
  rosters :: rosters_dict

text \<open>\<open>_load\<close>: the rows fetched from the two tables are stored one by one. A
  completion row is given as the \<open>DungeonCompletion\<close> built from it (with its run
  identifier already converted by \<open>str\<close>), a roster row as a pair of run and
  character. \<open>self._completions[c][d][l] = comp\<close> on the nested \<open>defaultdict\<close>
  creates the missing inner dictionaries.\<close>

definition store_completion :: "DungeonCompletion \<Rightarrow> completions_dict \<Rightarrow> completions_dict" where
  "store_completion compl cs =
     (let by_dungeon = (case map_of cs (character_id compl) of None \<Rightarrow> [] | Some m \<Rightarrow> m);
          by_level = (case map_of by_dungeon (dungeon_name compl) of None \<Rightarrow> [] | Some m \<Rightarrow> m)
      in AList.update (character_id compl)
           (AList.update (dungeon_name compl)
              (AList.update (difficulty_level compl) compl by_level) by_dungeon) cs)"

definition store_roster_row :: "string \<times> string \<Rightarrow> rosters_dict \<Rightarrow> rosters_dict" where
  "store_roster_row row temp =
     AList.update (fst row)
       ((case map_of temp (fst row) of None \<Rightarrow> [] | Some members \<Rightarrow> members) @ [snd row]) temp"

definition load :: "DungeonCompletion list \<Rightarrow> (string \<times> string) list \<Rightarrow> Repository" where
  "load completion_rows roster_rows =
     \<lparr>completions = fold store_completion completion_rows [],
      rosters = fold store_roster_row roster_rows []\<rparr>"

text \<open>\<open>self._completions.get(character_id, {}).get(dungeon, {})\<close>\<close>

definition dungeon_levels :: "Repository \<Rightarrow> string \<Rightarrow> string \<Rightarrow> level_dict" where
  "dungeon_levels repo cid d =
     (case map_of (completions repo) cid of
        None \<Rightarrow> []
      | Some char_completions \<Rightarrow>
          (case map_of char_completions d of None \<Rightarrow> [] | Some levels \<Rightarrow> levels))"

definition get_completion :: "Repository \<Rightarrow> string \<Rightarrow> string \<Rightarrow> int \<Rightarrow> DungeonCompletion option" where
  "get_completion repo cid d level = map_of (dungeon_levels repo cid d) level"

fun has_higher_loop :: "int \<Rightarrow> string \<Rightarrow> level_dict \<Rightarrow> bool" where
  "has_higher_loop level before [] = False"
| "has_higher_loop level before ((comp_level, compl) # rest) =
     (if comp_level > level \<and> first_completed compl < before then True
      else has_higher_loop level before rest)"

definition has_higher_completion :: "Repository \<Rightarrow> string \<Rightarrow> string \<Rightarrow> int \<Rightarrow> string \<Rightarrow> bool" where
  "has_higher_completion repo cid d level before =
     has_higher_loop level before (dungeon_levels repo cid d)"

text \<open>The inner loop of \<open>get_max_level_by_dungeon\<close>; \<open>best\<close> starts at 0.\<close>

fun best_loop :: "int \<Rightarrow> int \<Rightarrow> string \<Rightarrow> int \<Rightarrow> level_dict \<Rightarrow> int" where
  "best_loop max_level min_level before best [] = best"
| "best_loop max_level min_level before best ((level, compl) # rest) =
     best_loop max_level min_level before
       (if min_level \<le> level \<and> level \<le> max_level \<and> first_completed compl < before
        then max best level else best) rest"

fun max_level_loop ::
  "Repository \<Rightarrow> string \<Rightarrow> int \<Rightarrow> int \<Rightarrow> string \<Rightarrow> string list \<Rightarrow> (string \<times> int) list
     \<Rightarrow> (string \<times> int) list" where
  "max_level_loop repo cid max_level min_level before [] result = result"
| "max_level_loop repo cid max_level min_level before (d # ds) result =
     (let best = best_loop max_level min_level before 0 (dungeon_levels repo cid d)
      in max_level_loop repo cid max_level min_level before ds
           (if best > 0 then AList.update d best result else result))"

definition get_max_level_by_dungeon ::
  "Repository \<Rightarrow> string \<Rightarrow> string list \<Rightarrow> int \<Rightarrow> int \<Rightarrow> string \<Rightarrow> (string \<times> int) list" where
  "get_max_level_by_dungeon repo cid dungeons max_level min_level before =
     max_level_loop repo cid max_level min_level before dungeons []"

fun earliest_loop :: "int \<Rightarrow> string option \<Rightarrow> level_dict \<Rightarrow> string option" where
  "earliest_loop min_level earliest [] = earliest"
| "earliest_loop min_level earliest ((level, compl) # rest) =
     earliest_loop min_level
       (if level \<ge> min_level then
          (case earliest of
             None \<Rightarrow> Some (first_completed compl)
           | Some e \<Rightarrow> if first_completed compl < e then Some (first_completed compl) else Some e)
        else earliest) rest"

definition get_min_completion_date :: "Repository \<Rightarrow> string \<Rightarrow> string \<Rightarrow> int \<Rightarrow> string option" where
  "get_min_completion_date repo cid d min_level =
     earliest_loop min_level None (dungeon_levels repo cid d)"

definition get_roster :: "Repository \<Rightarrow> string \<Rightarrow> string list" where
  "get_roster repo run = (case map_of (rosters repo) run of None \<Rightarrow> [] | Some members \<Rightarrow> members)"

section \<open>Python built-ins used by the services\<close>

fun py_min :: "int list \<Rightarrow> error + int" where
  "py_min [] = Inl ValueError"
| "py_min (x # xs) = Inr (fold min xs x)"

fun py_max :: "string list \<Rightarrow> error + string" where
  "py_max [] = Inl ValueError"
| "py_max (x # xs) = Inr (fold max xs x)"

text \<open>\<open>s.split(sep)\<close> for a one-character separator: never an empty list.\<close>

fun py_split :: "char \<Rightarrow> string \<Rightarrow> string list" where
  "py_split sep [] = [[]]"
| "py_split sep (c # cs) =
     (if c = sep then [] # py_split sep cs
      else (case py_split sep cs of [] \<Rightarrow> [[c]] | p # ps \<Rightarrow> (c # p) # ps))"

section \<open>ResilienceCalculator (services.py)\<close>

definition default_min_level :: int where
  "default_min_level = 18"

definition calculate_resilience_level ::
  "Repository \<Rightarrow> string \<Rightarrow> string \<Rightarrow> string list \<Rightarrow> int \<Rightarrow> int \<Rightarrow> error + int" where
  "calculate_resilience_level repo cid timestamp dungeons max_level min_level =
     (let max_levels = get_max_level_by_dungeon repo cid dungeons max_level min_level timestamp
      in if length max_levels < length dungeons then Inr 0
         else py_min (map snd max_levels))"

text \<open>The loop of \<open>find_resilience_achievement_date\<close>: \<open>None\<close> is the early
  \<open>return None\<close>; \<open>not iso_timestamp\<close> holds for \<open>None\<close> and for the empty string.\<close>

fun completion_dates_loop ::
  "Repository \<Rightarrow> string \<Rightarrow> int \<Rightarrow> string list \<Rightarrow> string list \<Rightarrow> string list option" where
  "completion_dates_loop repo cid min_level [] completion_dates = Some completion_dates"
| "completion_dates_loop repo cid min_level (d # ds) completion_dates =
     (case get_min_completion_date repo cid d min_level of
        None \<Rightarrow> None
      | Some iso_timestamp \<Rightarrow>
          if iso_timestamp = [] then None
          else completion_dates_loop repo cid min_level ds (completion_dates @ [iso_timestamp]))"

definition find_resilience_achievement_date ::
  "Repository \<Rightarrow> string \<Rightarrow> int \<Rightarrow> string list \<Rightarrow> error + string option" where
  "find_resilience_achievement_date repo cid min_level dungeons =
     (case completion_dates_loop repo cid min_level dungeons [] of
        None \<Rightarrow> Inr None
      | Some completion_dates \<Rightarrow>
          (case py_max completion_dates of
             Inl e \<Rightarrow> Inl e
           | Inr latest_timestamp \<Rightarrow> Inr (Some (hd (py_split CHR ''T'' latest_timestamp)))))"

section \<open>PropagationGraphBuilder (services.py)\<close>

type_synonym edge_lists = "PropagationEdge list \<times> PropagationEdge list"

fun roster_loop ::
  "Repository \<Rightarrow> string list \<Rightarrow> int \<Rightarrow> int \<Rightarrow> bool \<Rightarrow> string \<Rightarrow> string \<Rightarrow> DungeonCompletion
     \<Rightarrow> string list \<Rightarrow> edge_lists \<Rightarrow> error + edge_lists" where
  "roster_loop repo dungeons target_level max_level is_resilient cid d completion [] acc = Inr acc"
| "roster_loop repo dungeons target_level max_level is_resilient cid d completion (other_id # rest)
     (resilient_edges, non_resilient_edges) =
     (if other_id = cid then
        roster_loop repo dungeons target_level max_level is_resilient cid d completion rest
          (resilient_edges, non_resilient_edges)
      else
        (case calculate_resilience_level repo other_id (first_completed completion) dungeons
                max_level default_min_level of
           Inl e \<Rightarrow> Inl e
         | Inr other_resilience \<Rightarrow>
             if other_resilience \<ge> target_level then
               (let edge = \<lparr>source = other_id, target = cid, dungeon = d,
                            edge_run_id = run_id completion\<rparr>
                in if is_resilient then
                     roster_loop repo dungeons target_level max_level is_resilient cid d completion
                       rest (resilient_edges @ [edge], non_resilient_edges)
                   else
                     roster_loop repo dungeons target_level max_level is_resilient cid d completion
                       rest (resilient_edges, non_resilient_edges @ [edge]))
             else
               roster_loop repo dungeons target_level max_level is_resilient cid d completion rest
                 (resilient_edges, non_resilient_edges)))"

fun dungeon_loop ::
  "Repository \<Rightarrow> string list \<Rightarrow> int \<Rightarrow> int \<Rightarrow> bool \<Rightarrow> string \<Rightarrow> string list \<Rightarrow> edge_lists
     \<Rightarrow> error + edge_lists" where
  "dungeon_loop repo dungeons target_level max_level is_resilient cid [] acc = Inr acc"
| "dungeon_loop repo dungeons target_level max_level is_resilient cid (d # ds) acc =
     (case get_completion repo cid d target_level of
        None \<Rightarrow> dungeon_loop repo dungeons target_level max_level is_resilient cid ds acc
      | Some completion \<Rightarrow>
          if has_higher_completion repo cid d target_level (first_completed completion) then
            dungeon_loop repo dungeons target_level max_level is_resilient cid ds acc
          else
            (case roster_loop repo dungeons target_level max_level is_resilient cid d completion
                    (get_roster repo (run_id completion)) acc of
               Inl e \<Rightarrow> Inl e
             | Inr acc' \<Rightarrow>
                 dungeon_loop repo dungeons target_level max_level is_resilient cid ds acc'))"

fun character_loop ::
  "Repository \<Rightarrow> (string \<rightharpoonup> string) \<Rightarrow> string list \<Rightarrow> int \<Rightarrow> int \<Rightarrow> string list \<Rightarrow> edge_lists
     \<Rightarrow> error + edge_lists" where
  "character_loop repo resilient_timestamps dungeons target_level max_level [] acc = Inr acc"
| "character_loop repo resilient_timestamps dungeons target_level max_level (cid # cids) acc =
     (let is_resilient = (resilient_timestamps cid \<noteq> None)
      in case dungeon_loop repo dungeons target_level max_level is_resilient cid dungeons acc of
           Inl e \<Rightarrow> Inl e
         | Inr acc' \<Rightarrow>
             character_loop repo resilient_timestamps dungeons target_level max_level cids acc')"

definition build_edges ::
  "Repository \<Rightarrow> string list \<Rightarrow> (string \<rightharpoonup> string) \<Rightarrow> string list \<Rightarrow> int \<Rightarrow> int
     \<Rightarrow> error + edge_lists" where
  "build_edges repo characters resilient_timestamps dungeons target_level max_level =
     character_loop repo resilient_timestamps dungeons target_level max_level characters ([], [])"

section \<open>The services as operations on the repository object\<close>










section \<open>Notions used to state the properties\<close>

text \<open>
  The completions stored for a character in a dungeon are the items of the innermost
  dictionary, \<open>dungeon_levels\<close>. The qualifying levels are the levels of the stored
  completions inside the bounds and strictly before the query timestamp.
\<close>

definition qualifying_levels :: "Repository \<Rightarrow> string \<Rightarrow> string \<Rightarrow> int \<Rightarrow> int \<Rightarrow> string \<Rightarrow> int list" where
  "qualifying_levels repo cid d min_level max_level timestamp =
     map fst (filter (\<lambda>(level, compl). min_level \<le> level \<and> level \<le> max_level
                                       \<and> first_completed compl < timestamp)
                     (dungeon_levels repo cid d))"

text \<open>The value of \<open>best\<close> after the inner loop of \<open>get_max_level_by_dungeon\<close>.\<close>

definition best_level :: "Repository \<Rightarrow> string \<Rightarrow> string \<Rightarrow> int \<Rightarrow> int \<Rightarrow> string \<Rightarrow> int" where
  "best_level repo cid d min_level max_level timestamp =
     best_loop max_level min_level timestamp 0 (dungeon_levels repo cid d)"

text \<open>The first-completion timestamps of the stored completions at a level of at least
  \<open>min_level\<close>.\<close>

definition qualifying_dates :: "Repository \<Rightarrow> string \<Rightarrow> string \<Rightarrow> int \<Rightarrow> string list" where
  "qualifying_dates repo cid d min_level =
     map (\<lambda>(level, compl). first_completed compl)
         (filter (\<lambda>(level, compl). min_level \<le> level) (dungeon_levels repo cid d))"

text \<open>The shape of an ISO 8601 timestamp such as \<open>2025-09-24T20:38:11.000Z\<close>, as far as
  the code depends on it: ten characters of date without a \<open>T\<close>, then a \<open>T\<close>.\<close>

definition iso8601_shaped :: "string \<Rightarrow> bool" where
  "iso8601_shaped ts \<longleftrightarrow> 10 < length ts \<and> ts ! 10 = CHR ''T'' \<and> CHR ''T'' \<notin> set (take 10 ts)"

text \<open>A dictionary has each key once; the innermost dictionaries are the ones the loops
  iterate over.\<close>

definition level_keys_distinct :: "completions_dict \<Rightarrow> bool" where
  "level_keys_distinct cs \<longleftrightarrow>
     (\<forall>(c, by_dungeon) \<in> set cs. \<forall>(d, by_level) \<in> set by_dungeon. distinct (map fst by_level))"

text \<open>The test \<open>other_resilience >= target_level\<close> of \<open>build_edges\<close>, with the resilience
  computed over the full dungeon list at the default \<open>min_level\<close>.\<close>

definition resilience_reaches :: "Repository \<Rightarrow> string list \<Rightarrow> int \<Rightarrow> string \<Rightarrow> string \<Rightarrow> int \<Rightarrow> bool" where
  "resilience_reaches repo dungeons max_level other_id timestamp target_level =
     (case calculate_resilience_level repo other_id timestamp dungeons max_level default_min_level of
        Inl e \<Rightarrow> False
      | Inr other_resilience \<Rightarrow> target_level \<le> other_resilience)"

text \<open>The edges a roster scan yields for one completion.\<close>

definition scan_roster ::
  "Repository \<Rightarrow> string list \<Rightarrow> int \<Rightarrow> int \<Rightarrow> string \<Rightarrow> string \<Rightarrow> DungeonCompletion
     \<Rightarrow> PropagationEdge list" where
  "scan_roster repo dungeons target_level max_level cid d completion =
     map (\<lambda>other_id. \<lparr>source = other_id, target = cid, dungeon = d,
                        edge_run_id = run_id completion\<rparr>)
         (filter (\<lambda>other_id. other_id \<noteq> cid \<and>
                    resilience_reaches repo dungeons max_level other_id
                      (first_completed completion) target_level)
                 (get_roster repo (run_id completion)))"

text \<open>Supersession in the words of the specification: a stored completion of the same
  character in the same dungeon at a strictly higher level with a strictly earlier
  timestamp.\<close>

definition superseded :: "Repository \<Rightarrow> string \<Rightarrow> string \<Rightarrow> int \<Rightarrow> DungeonCompletion \<Rightarrow> bool" where
  "superseded repo cid d target_level completion \<longleftrightarrow>
     (\<exists>(level, compl) \<in> set (dungeon_levels repo cid d).
        target_level < level \<and> first_completed compl < first_completed completion)"

definition completion_edges ::
  "Repository \<Rightarrow> string list \<Rightarrow> int \<Rightarrow> int \<Rightarrow> string \<Rightarrow> string \<Rightarrow> PropagationEdge list" where
  "completion_edges repo dungeons target_level max_level cid d =
     (case get_completion repo cid d target_level of
        None \<Rightarrow> []
      | Some completion \<Rightarrow>
          if superseded repo cid d target_level completion then []
          else scan_roster repo dungeons target_level max_level cid d completion)"

definition emitted_edges ::
  "Repository \<Rightarrow> string list \<Rightarrow> string list \<Rightarrow> int \<Rightarrow> int \<Rightarrow> PropagationEdge list" where
  "emitted_edges repo characters dungeons target_level max_level =
     concat (map (\<lambda>cid. concat (map (completion_edges repo dungeons target_level max_level cid)
                                    dungeons))
                 characters)"

section \<open>Example data\<close>

definition mk_completion :: "string \<Rightarrow> string \<Rightarrow> int \<Rightarrow> string \<Rightarrow> string \<Rightarrow> DungeonCompletion" where
  "mk_completion c d l t r =
     \<lparr>character_id = c, dungeon_name = d, difficulty_level = l, first_completed = t, run_id = r\<rparr>"

text \<open>The database of tests/test\_integration.py.\<close>

definition example_repo :: Repository where
  "example_repo = load
     [mk_completion ''char1'' ''Dungeon A'' 20 ''2025-01-01T12:00:00.000Z'' ''run1'',
      mk_completion ''char1'' ''Dungeon B'' 21 ''2025-01-02T12:00:00.000Z'' ''run2'',
      mk_completion ''char1'' ''Dungeon C'' 20 ''2025-01-03T12:00:00.000Z'' ''run3'',
      mk_completion ''char2'' ''Dungeon A'' 20 ''2025-01-04T12:00:00.000Z'' ''run4'',
      mk_completion ''char2'' ''Dungeon B'' 20 ''2025-01-05T12:00:00.000Z'' ''run5'',
      mk_completion ''char2'' ''Dungeon C'' 22 ''2025-01-06T12:00:00.000Z'' ''run6'',
      mk_completion ''char3'' ''Dungeon A'' 19 ''2025-01-07T12:00:00.000Z'' ''run7'',
      mk_completion ''char3'' ''Dungeon B'' 20 ''2025-01-08T12:00:00.000Z'' ''run8'',
      mk_completion ''char3'' ''Dungeon C'' 18 ''2025-01-09T12:00:00.000Z'' ''run9'']
     [(''run4'', ''char1''), (''run4'', ''char2'')]"

definition example_dungeons :: "string list" where
  "example_dungeons = [''Dungeon A'', ''Dungeon B'', ''Dungeon C'']"

definition example_characters :: "string list" where
  "example_characters = [''char1'', ''char2'', ''char3'']"

text \<open>The edge the integration test expects, and the resilience dates it is run with.\<close>

definition example_edge :: PropagationEdge where
  "example_edge = \<lparr>source = ''char1'', target = ''char2'', dungeon = ''Dungeon A'',
                    edge_run_id = ''run4''\<rparr>"

definition example_timestamps :: "string \<rightharpoonup> string" where
  "example_timestamps = [''char1'' \<mapsto> ''2025-01-03'']"

text \<open>The database of the integration test, where \<open>char2\<close> has in addition completed
  Dungeon A at level 22 before its completion at level 20.\<close>

definition superseded_repo :: Repository where
  "superseded_repo = load
     [mk_completion ''char1'' ''Dungeon A'' 20 ''2025-01-01T12:00:00.000Z'' ''run1'',
      mk_completion ''char1'' ''Dungeon B'' 21 ''2025-01-02T12:00:00.000Z'' ''run2'',
      mk_completion ''char1'' ''Dungeon C'' 20 ''2025-01-03T12:00:00.000Z'' ''run3'',
      mk_completion ''char2'' ''Dungeon A'' 20 ''2025-01-04T12:00:00.000Z'' ''run4'',
      mk_completion ''char2'' ''Dungeon A'' 22 ''2025-01-03T18:00:00.000Z'' ''run0'']
     [(''run4'', ''char1''), (''run4'', ''char2'')]"

section \<open>Lemmas about the repository queries and the loops\<close>

subsection \<open>The per-dungeon maxima and the resilience level\<close>

lemma Max_insert_max:
  "finite S \<Longrightarrow> Max (insert (max b l) S) = Max (insert b (insert l S))"
  by (cases "S = {}") (simp_all add: max.assoc)

lemma set_alist_update:
  "set (AList.update k v al) \<subseteq> insert (k, v) (set al)"
  by (induction al) auto

lemma best_loop_Max:
  "best_loop mx mn before b xs =
     Max (insert b (set (map fst (filter (\<lambda>(level, compl). mn \<le> level \<and> level \<le> mx
                                       \<and> first_completed compl < before) xs))))"
proof (induction xs arbitrary: b)
  case Nil
  then show ?case by simp
next
  case (Cons x xs)
  obtain l c where x: "x = (l, c)" by (cases x)
  show ?case
    by (simp add: x Cons.IH Max_insert_max del: Max_insert)
qed

lemma best_level_Max:
  "best_level repo cid d mn mx ts = Max (insert 0 (set (qualifying_levels repo cid d mn mx ts)))"
  by (simp add: best_level_def qualifying_levels_def best_loop_Max)

lemma max_level_loop_keys:
  "fst ` set (max_level_loop repo cid mx mn ts ds result) =
     fst ` set result \<union> {d \<in> set ds. 0 < best_level repo cid d mn mx ts}"
  by (induction ds arbitrary: result) (auto simp: Let_def best_level_def dom_update)

lemma max_level_loop_distinct:
  "distinct (map fst result) \<Longrightarrow> distinct (map fst (max_level_loop repo cid mx mn ts ds result))"
  by (induction ds arbitrary: result) (auto simp: Let_def distinct_update)

lemma max_level_loop_values:
  "(d, v) \<in> set (max_level_loop repo cid mx mn ts ds result) \<Longrightarrow>
     (d, v) \<in> set result \<or> (d \<in> set ds \<and> v = best_level repo cid d mn mx ts \<and> 0 < v)"
proof (induction ds arbitrary: result)
  case Nil
  then show ?case by simp
next
  case (Cons a ds)
  let ?b = "best_level repo cid a mn mx ts"
  show ?case
  proof (cases "0 < ?b")
    case True
    with Cons.prems have "(d, v) \<in> set (max_level_loop repo cid mx mn ts ds (AList.update a ?b result))"
      by (simp add: best_level_def)
    from Cons.IH[OF this] show ?thesis
    proof
      assume "(d, v) \<in> set (AList.update a ?b result)"
      then have "(d, v) \<in> set result \<or> (d = a \<and> v = ?b)"
        using set_alist_update[of a ?b result] by auto
      with True show ?thesis by auto
    qed auto
  next
    case False
    with Cons.prems have "(d, v) \<in> set (max_level_loop repo cid mx mn ts ds result)"
      by (simp add: best_level_def)
    from Cons.IH[OF this] show ?thesis by auto
  qed
qed

lemma max_level_loop_append:
  "distinct ds \<Longrightarrow> set ds \<inter> fst ` set result = {} \<Longrightarrow>
   \<forall>d\<in>set ds. 0 < best_level repo cid d mn mx ts \<Longrightarrow>
   max_level_loop repo cid mx mn ts ds result =
     result @ map (\<lambda>d. (d, best_level repo cid d mn mx ts)) ds"
proof (induction ds arbitrary: result)
  case Nil
  then show ?case by simp
next
  case (Cons a ds)
  let ?b = "best_level repo cid a mn mx ts"
  have a: "a \<notin> fst ` set result" using Cons.prems(2) by auto
  then have upd: "AList.update a ?b result = result @ [(a, ?b)]"
    by (induction result) auto
  have "set ds \<inter> fst ` set (result @ [(a, ?b)]) = {}"
    using Cons.prems(1,2) by auto
  with Cons.IH[of "result @ [(a, ?b)]"] Cons.prems
  have "max_level_loop repo cid mx mn ts ds (result @ [(a, ?b)]) =
          (result @ [(a, ?b)]) @ map (\<lambda>d. (d, best_level repo cid d mn mx ts)) ds"
    by simp
  with Cons.prems(3) upd show ?case
    by (simp add: best_level_def)
qed

lemma get_max_length:
  "length (get_max_level_by_dungeon repo cid ds mx mn ts) =
     card {d \<in> set ds. 0 < best_level repo cid d mn mx ts}"
proof -
  let ?r = "get_max_level_by_dungeon repo cid ds mx mn ts"
  have d: "distinct (map fst ?r)"
    unfolding get_max_level_by_dungeon_def by (rule max_level_loop_distinct) simp
  have k: "fst ` set ?r = {d \<in> set ds. 0 < best_level repo cid d mn mx ts}"
    unfolding get_max_level_by_dungeon_def by (simp add: max_level_loop_keys)
  have "length ?r = length (map fst ?r)" by simp
  also have "\<dots> = card (set (map fst ?r))" using d by (simp only: distinct_card)
  finally show ?thesis using k by simp
qed

lemma get_max_length_less:
  assumes "d \<in> set ds" "\<not> 0 < best_level repo cid d mn mx ts"
  shows "length (get_max_level_by_dungeon repo cid ds mx mn ts) < length ds"
proof -
  have "{d \<in> set ds. 0 < best_level repo cid d mn mx ts} \<subset> set ds"
    using assms by auto
  then have "card {d \<in> set ds. 0 < best_level repo cid d mn mx ts} < card (set ds)"
    by (simp add: psubset_card_mono)
  also have "\<dots> \<le> length ds" by (rule card_length)
  finally show ?thesis by (simp add: get_max_length)
qed

lemma get_max_length_dup:
  assumes "\<not> distinct ds"
  shows "length (get_max_level_by_dungeon repo cid ds mx mn ts) < length ds"
proof -
  have "card {d \<in> set ds. 0 < best_level repo cid d mn mx ts} \<le> card (set ds)"
    by (rule card_mono) auto
  moreover have "card (set ds) < length ds"
    using assms card_distinct[of ds] card_length[of ds] by (cases "card (set ds) = length ds") auto
  ultimately show ?thesis by (simp add: get_max_length)
qed

lemma py_min_Min: "xs \<noteq> [] \<Longrightarrow> py_min xs = Inr (Min (set xs))"
proof -
  assume "xs \<noteq> []"
  then obtain x ys where xs: "xs = x # ys" by (cases xs) auto
  have "fold min ys x = Min (set (x # ys))" by (rule Min.set_eq_fold[symmetric])
  then show ?thesis by (simp add: xs)
qed

lemma get_max_values:
  assumes "(d, v) \<in> set (get_max_level_by_dungeon repo cid ds mx mn ts)"
  shows "d \<in> set ds \<and> v = best_level repo cid d mn mx ts \<and> 0 < v"
  using max_level_loop_values[of d v repo cid mx mn ts ds "[]"] assms
  by (simp add: get_max_level_by_dungeon_def)

lemma best_level_nonneg: "0 \<le> best_level repo cid d mn mx ts"
  by (simp add: best_level_Max)

lemma best_level_pos_mem:
  "0 < best_level repo cid d mn mx ts \<Longrightarrow>
     best_level repo cid d mn mx ts \<in> set (qualifying_levels repo cid d mn mx ts)"
proof -
  assume pos: "0 < best_level repo cid d mn mx ts"
  let ?S = "insert 0 (set (qualifying_levels repo cid d mn mx ts))"
  have "Max ?S \<in> ?S" by (rule Max_in) simp_all
  with pos show ?thesis by (auto simp: best_level_Max)
qed

lemma qualifying_levels_range:
  "l \<in> set (qualifying_levels repo cid d mn mx ts) \<Longrightarrow> mn \<le> l \<and> l \<le> mx"
  by (auto simp: qualifying_levels_def)

lemma best_level_empty:
  "qualifying_levels repo cid d mn mx ts = [] \<Longrightarrow> best_level repo cid d mn mx ts = 0"
  by (simp add: best_level_Max)

lemma best_level_eq_Max:
  assumes "qualifying_levels repo cid d mn mx ts \<noteq> []"
    and "0 \<le> Max (set (qualifying_levels repo cid d mn mx ts))"
  shows "best_level repo cid d mn mx ts = Max (set (qualifying_levels repo cid d mn mx ts))"
  using assms by (simp add: best_level_Max)

lemma calc_all_positive:
  assumes "ds \<noteq> []" "distinct ds" "\<forall>d\<in>set ds. 0 < best_level repo cid d mn mx ts"
  shows "calculate_resilience_level repo cid ts ds mx mn =
           Inr (Min ((\<lambda>d. best_level repo cid d mn mx ts) ` set ds))"
proof -
  have r: "get_max_level_by_dungeon repo cid ds mx mn ts =
             map (\<lambda>d. (d, best_level repo cid d mn mx ts)) ds"
    unfolding get_max_level_by_dungeon_def
    using max_level_loop_append[of ds "[]" repo cid mn mx ts] assms by simp
  have "map snd (map (\<lambda>d. (d, best_level repo cid d mn mx ts)) ds) =
          map (\<lambda>d. best_level repo cid d mn mx ts) ds"
    by simp
  then show ?thesis
    using assms(1) by (simp add: calculate_resilience_level_def r py_min_Min)
qed

lemma calc_some_missing:
  assumes "d \<in> set ds" "\<not> 0 < best_level repo cid d mn mx ts"
  shows "calculate_resilience_level repo cid ts ds mx mn = Inr 0"
  using get_max_length_less[OF assms] by (simp add: calculate_resilience_level_def)

lemma calc_range:
  assumes "ds \<noteq> []"
  shows "\<exists>r. calculate_resilience_level repo cid ts ds mx mn = Inr r \<and>
             (r = 0 \<or> (\<exists>d\<in>set ds. r \<in> set (qualifying_levels repo cid d mn mx ts)))"
proof (cases "length (get_max_level_by_dungeon repo cid ds mx mn ts) < length ds")
  case True
  then show ?thesis by (simp add: calculate_resilience_level_def)
next
  case False
  let ?r = "get_max_level_by_dungeon repo cid ds mx mn ts"
  from False assms have ne: "map snd ?r \<noteq> []" by auto
  then have c: "calculate_resilience_level repo cid ts ds mx mn = Inr (Min (set (map snd ?r)))"
    using False by (simp add: calculate_resilience_level_def py_min_Min del: set_map)
  have "Min (set (map snd ?r)) \<in> set (map snd ?r)"
    using ne by (intro Min_in) simp_all
  then obtain d where dv: "(d, Min (set (map snd ?r))) \<in> set ?r" by auto
  from get_max_values[OF dv]
  have "d \<in> set ds" and "Min (set (map snd ?r)) = best_level repo cid d mn mx ts"
    and "0 < Min (set (map snd ?r))" by auto
  then have "Min (set (map snd ?r)) \<in> set (qualifying_levels repo cid d mn mx ts)"
    using best_level_pos_mem[of repo cid d mn mx ts] by simp
  with c \<open>d \<in> set ds\<close> show ?thesis by blast
qed

lemma calc_min_of_maxima:
  assumes "dungeons \<noteq> []" and "distinct dungeons"
    and "\<forall>d\<in>set dungeons. qualifying_levels repo cid d min_level max_level timestamp \<noteq> []"
    and "\<forall>d\<in>set dungeons.
           0 \<le> Max (set (qualifying_levels repo cid d min_level max_level timestamp))"
  shows "calculate_resilience_level repo cid timestamp dungeons max_level min_level =
           Inr (Min ((\<lambda>d. Max (set (qualifying_levels repo cid d min_level max_level timestamp)))
                       ` set dungeons))"
proof -
  let ?q = "\<lambda>d. qualifying_levels repo cid d min_level max_level timestamp"
  let ?b = "\<lambda>d. best_level repo cid d min_level max_level timestamp"
  have eq: "\<forall>d\<in>set dungeons. ?b d = Max (set (?q d))"
    using assms(3,4) by (simp add: best_level_eq_Max)
  then have img: "(\<lambda>d. Max (set (?q d))) ` set dungeons = ?b ` set dungeons"
    by (intro image_cong) simp_all
  show ?thesis
  proof (cases "\<forall>d\<in>set dungeons. 0 < ?b d")
    case True
    then show ?thesis using calc_all_positive[OF assms(1,2)] img by simp
  next
    case False
    then obtain d where d: "d \<in> set dungeons" "\<not> 0 < ?b d" by blast
    then have "?b d = 0"
      using best_level_nonneg[of repo cid d min_level max_level timestamp] by simp
    then have "0 \<in> ?b ` set dungeons" using d(1) by force
    moreover have "\<forall>x\<in>?b ` set dungeons. 0 \<le> x" by (auto simp: best_level_nonneg)
    ultimately have "Min (?b ` set dungeons) = 0"
      by (intro Min_eqI) auto
    with calc_some_missing[OF d] img show ?thesis by simp
  qed
qed

subsection \<open>The earliest completion dates and the achievement date\<close>

lemma Min_insert_min:
  "finite S \<Longrightarrow> Min (insert (min a b) S) = Min (insert b (insert a S))"
  by (cases "S = {}") (simp_all add: min.assoc min.commute min.left_commute)

lemma earliest_loop_Min:
  "earliest_loop mn e xs =
     (case e of
        None \<Rightarrow> (if filter (\<lambda>(level, compl). mn \<le> level) xs = [] then None
                 else Some (Min (set (map (\<lambda>(level, compl). first_completed compl)
                                       (filter (\<lambda>(level, compl). mn \<le> level) xs)))))
      | Some t \<Rightarrow> Some (Min (insert t (set (map (\<lambda>(level, compl). first_completed compl)
                                       (filter (\<lambda>(level, compl). mn \<le> level) xs))))))"
proof (induction xs arbitrary: e)
  case Nil
  then show ?case by (simp split: option.splits)
next
  case (Cons x xs)
  obtain l c where x: "x = (l, c)" by (cases x)
  show ?case
  proof (cases "mn \<le> l")
    case False
    then show ?thesis by (cases e) (simp_all add: x Cons.IH)
  next
    case True
    show ?thesis
    proof (cases e)
      case None
      then show ?thesis using True by (simp add: x Cons.IH del: Min_insert)
    next
      case (Some t)
      have "(if first_completed c < t then Some (first_completed c) else Some t)
              = Some (min (first_completed c) t)"
        using less_imp_le[of "first_completed c" t] by (auto simp: min_def)
      then show ?thesis using True Some
        by (simp add: x Cons.IH Min_insert_min del: Min_insert)
    qed
  qed
qed

lemma get_min_completion_date_Min:
  "get_min_completion_date repo cid d mn =
     (if qualifying_dates repo cid d mn = [] then None
      else Some (Min (set (qualifying_dates repo cid d mn))))"
  by (simp add: get_min_completion_date_def earliest_loop_Min qualifying_dates_def)

lemma py_split_nonempty: "py_split sep s \<noteq> []"
  by (induction s) (auto split: list.splits)

lemma hd_py_split: "hd (py_split sep s) = takeWhile (\<lambda>c. c \<noteq> sep) s"
  using py_split_nonempty[of sep] by (induction s) (auto split: list.splits)

lemma iso8601_date:
  assumes "iso8601_shaped ts"
  shows "hd (py_split CHR ''T'' ts) = take 10 ts"
proof -
  from assms have len: "10 < length ts" and t: "ts ! 10 = CHR ''T''"
    and nt: "CHR ''T'' \<notin> set (take 10 ts)"
    by (simp_all add: iso8601_shaped_def)
  have "ts = take 10 ts @ ts ! 10 # drop (Suc 10) ts"
    using len by (rule id_take_nth_drop)
  then have "takeWhile (\<lambda>c. c \<noteq> CHR ''T'') ts =
               takeWhile (\<lambda>c. c \<noteq> CHR ''T'') (take 10 ts @ CHR ''T'' # drop (Suc 10) ts)"
    using t by simp
  also have "\<dots> = takeWhile (\<lambda>c. c \<noteq> CHR ''T'') (take 10 ts)"
    by (rule takeWhile_tail) simp
  also have "\<dots> = take 10 ts"
    using nt by (auto simp: takeWhile_eq_all_conv)
  finally show ?thesis by (simp add: hd_py_split)
qed

lemma iso8601_nonempty: "iso8601_shaped ts \<Longrightarrow> ts \<noteq> []"
  by (auto simp: iso8601_shaped_def)

lemma completion_dates_loop_missing:
  "d \<in> set ds \<Longrightarrow> get_min_completion_date repo cid d mn = None \<Longrightarrow>
     completion_dates_loop repo cid mn ds acc = None"
  by (induction ds arbitrary: acc) (auto split: option.splits)

lemma completion_dates_loop_all:
  "\<forall>d\<in>set ds. \<exists>t. get_min_completion_date repo cid d mn = Some t \<and> t \<noteq> [] \<Longrightarrow>
     completion_dates_loop repo cid mn ds acc =
       Some (acc @ map (\<lambda>d. the (get_min_completion_date repo cid d mn)) ds)"
  by (induction ds arbitrary: acc) auto

lemma py_max_Max: "xs \<noteq> [] \<Longrightarrow> py_max xs = Inr (Max (set xs))"
proof -
  assume "xs \<noteq> []"
  then obtain x ys where xs: "xs = x # ys" by (cases xs) auto
  have "fold max ys x = Max (set (x # ys))" by (rule Max.set_eq_fold[symmetric])
  then show ?thesis by (simp add: xs)
qed

subsection \<open>The loops of \<open>build_edges\<close>\<close>

lemma has_higher_loop_ex:
  "has_higher_loop level before xs \<longleftrightarrow>
     (\<exists>(l, c) \<in> set xs. level < l \<and> first_completed c < before)"
  by (induction xs) auto

lemma has_higher_superseded:
  "has_higher_completion repo cid d lvl (first_completed completion) = superseded repo cid d lvl completion"
  by (simp add: has_higher_completion_def superseded_def has_higher_loop_ex)

lemma calc_total:
  "ds \<noteq> [] \<Longrightarrow> \<exists>r. calculate_resilience_level repo cid ts ds mx mn = Inr r"
  using calc_range[of ds repo cid ts mx mn] by blast

lemma roster_loop_eq:
  assumes "dungeons \<noteq> []"
  shows "roster_loop repo dungeons lvl ml is_res cid d completion rs (res, nres) =
     Inr (if is_res
          then (res @ map (\<lambda>other_id. \<lparr>source = other_id, target = cid, dungeon = d,
                                        edge_run_id = run_id completion\<rparr>)
                        (filter (\<lambda>other_id. other_id \<noteq> cid \<and>
                                   resilience_reaches repo dungeons ml other_id
                                     (first_completed completion) lvl) rs), nres)
          else (res, nres @ map (\<lambda>other_id. \<lparr>source = other_id, target = cid, dungeon = d,
                                        edge_run_id = run_id completion\<rparr>)
                        (filter (\<lambda>other_id. other_id \<noteq> cid \<and>
                                   resilience_reaches repo dungeons ml other_id
                                     (first_completed completion) lvl) rs)))"
proof (induction rs arbitrary: res nres)
  case Nil
  then show ?case by simp
next
  case (Cons other_id rs)
  obtain r where r: "calculate_resilience_level repo other_id (first_completed completion)
                       dungeons ml default_min_level = Inr r"
    using calc_total[OF assms] by blast
  show ?case using Cons.IH
    by (cases is_res) (simp_all add: r resilience_reaches_def Let_def)
qed

lemma dungeon_loop_eq:
  assumes "set dl \<subseteq> set dungeons"
  shows "dungeon_loop repo dungeons lvl ml is_res cid dl (res, nres) =
     Inr (if is_res
          then (res @ concat (map (completion_edges repo dungeons lvl ml cid) dl), nres)
          else (res, nres @ concat (map (completion_edges repo dungeons lvl ml cid) dl)))"
  using assms
proof (induction dl arbitrary: res nres)
  case Nil
  then show ?case by simp
next
  case (Cons d dl)
  then have ne: "dungeons \<noteq> []" and sub: "set dl \<subseteq> set dungeons" by auto
  show ?case
  proof (cases "get_completion repo cid d lvl")
    case None
    then show ?thesis using Cons.IH[OF sub] by (simp add: completion_edges_def)
  next
    case (Some completion)
    show ?thesis
    proof (cases "superseded repo cid d lvl completion")
      case True
      then show ?thesis using Some Cons.IH[OF sub]
        by (simp add: completion_edges_def has_higher_superseded)
    next
      case False
      then show ?thesis using Some Cons.IH[OF sub]
        by (cases is_res)
           (simp_all add: completion_edges_def has_higher_superseded roster_loop_eq[OF ne]
              scan_roster_def)
    qed
  qed
qed

lemma scan_roster_target:
  "e \<in> set (scan_roster repo dungeons lvl ml cid d completion) \<Longrightarrow> target e = cid"
  by (auto simp: scan_roster_def)

lemma completion_edges_target:
  "e \<in> set (completion_edges repo dungeons lvl ml cid d) \<Longrightarrow> target e = cid"
  by (auto simp: completion_edges_def scan_roster_target split: option.splits if_splits)

lemma character_edges_target:
  "e \<in> set (concat (map (completion_edges repo dungeons lvl ml cid) dl)) \<Longrightarrow> target e = cid"
  by (auto simp: completion_edges_target)

lemma character_loop_eq:
  "character_loop repo rt dungeons lvl ml cids (res, nres) =
     Inr (res @ filter (\<lambda>e. rt (target e) \<noteq> None) (emitted_edges repo cids dungeons lvl ml),
          nres @ filter (\<lambda>e. rt (target e) = None) (emitted_edges repo cids dungeons lvl ml))"
proof (induction cids arbitrary: res nres)
  case Nil
  then show ?case by (simp add: emitted_edges_def)
next
  case (Cons cid cids)
  let ?E = "concat (map (completion_edges repo dungeons lvl ml cid) dungeons)"
  have t: "\<forall>e\<in>set ?E. target e = cid"
    using character_edges_target by blast
  have f1: "filter (\<lambda>e. rt (target e) \<noteq> None) ?E = (if rt cid \<noteq> None then ?E else [])"
    using t by (auto simp: filter_empty_conv filter_id_conv)
  have f2: "filter (\<lambda>e. rt (target e) = None) ?E = (if rt cid = None then ?E else [])"
    using t by (auto simp: filter_empty_conv filter_id_conv)
  have em: "emitted_edges repo (cid # cids) dungeons lvl ml = ?E @ emitted_edges repo cids dungeons lvl ml"
    by (simp add: emitted_edges_def)
  show ?case
    by (simp add: Let_def dungeon_loop_eq Cons.IH em f1 f2 del: not_None_eq)
qed

lemma build_edges_eq:
  "build_edges repo characters rt dungeons lvl ml =
     Inr (filter (\<lambda>e. rt (target e) \<noteq> None) (emitted_edges repo characters dungeons lvl ml),
          filter (\<lambda>e. rt (target e) = None) (emitted_edges repo characters dungeons lvl ml))"
  by (simp add: build_edges_def character_loop_eq)

lemma emitted_edges_iff:
  "e \<in> set (emitted_edges repo characters dungeons lvl ml) \<longleftrightarrow>
     (\<exists>cid\<in>set characters. \<exists>d\<in>set dungeons. e \<in> set (completion_edges repo dungeons lvl ml cid d))"
  by (auto simp: emitted_edges_def)

lemma resilience_reaches_iff:
  "resilience_reaches repo dungeons ml other_id ts lvl \<longleftrightarrow>
     (\<exists>r. calculate_resilience_level repo other_id ts dungeons ml default_min_level = Inr r \<and> lvl \<le> r)"
  by (auto simp: resilience_reaches_def split: sum.splits)

lemma scan_roster_iff:
  "e \<in> set (scan_roster repo dungeons lvl ml cid d completion) \<longleftrightarrow>
     source e \<in> set (get_roster repo (run_id completion)) \<and> source e \<noteq> cid \<and>
     (\<exists>r. calculate_resilience_level repo (source e) (first_completed completion) dungeons ml
             default_min_level = Inr r \<and> lvl \<le> r) \<and>
     e = \<lparr>source = source e, target = cid, dungeon = d, edge_run_id = run_id completion\<rparr>"
  by (auto simp: scan_roster_def resilience_reaches_iff)

lemma completion_edges_iff:
  "e \<in> set (completion_edges repo dungeons lvl ml cid d) \<longleftrightarrow>
     (\<exists>completion r.
        get_completion repo cid d lvl = Some completion \<and>
        \<not> has_higher_completion repo cid d lvl (first_completed completion) \<and>
        source e \<in> set (get_roster repo (run_id completion)) \<and> source e \<noteq> cid \<and>
        calculate_resilience_level repo (source e) (first_completed completion) dungeons ml
          default_min_level = Inr r \<and> lvl \<le> r \<and>
        e = \<lparr>source = source e, target = cid, dungeon = d, edge_run_id = run_id completion\<rparr>)"
proof (cases "get_completion repo cid d lvl")
  case None
  then show ?thesis by (simp add: completion_edges_def)
next
  case (Some completion)
  then show ?thesis
    by (cases "superseded repo cid d lvl completion")
       (auto simp: completion_edges_def has_higher_superseded scan_roster_iff)
qed

lemma completion_edges_dungeon:
  "e \<in> set (completion_edges repo dungeons lvl ml cid d) \<Longrightarrow> dungeon e = d"
  by (auto simp: completion_edges_def scan_roster_def split: option.splits if_splits)

lemma build_edges_sets:
  assumes "build_edges repo characters rt dungeons lvl ml = Inr (res, nres)"
  shows "set res = {e \<in> set (emitted_edges repo characters dungeons lvl ml). rt (target e) \<noteq> None}"
    and "set nres = {e \<in> set (emitted_edges repo characters dungeons lvl ml). rt (target e) = None}"
  using assms by (auto simp: build_edges_eq)

subsection \<open>The repository object is left as it was\<close>






subsection \<open>Loaded repositories\<close>

text \<open>
  Whatever rows \<open>load\<close> is given, no level occurs twice in an innermost dictionary,
  so the items the loops iterate over are exactly the completions \<open>get_completion\<close>
  finds.
\<close>

lemma map_of_default_mem:
  "(case map_of al k of None \<Rightarrow> [] | Some m \<Rightarrow> m) = m \<Longrightarrow> m \<noteq> [] \<Longrightarrow> (k, m) \<in> set al"
  by (auto split: option.splits dest: map_of_SomeD)

lemma store_completion_distinct:
  assumes "level_keys_distinct cs"
  shows "level_keys_distinct (store_completion row cs)"
proof -
  define by_dungeon where
    "by_dungeon = (case map_of cs (character_id row) of None \<Rightarrow> [] | Some m \<Rightarrow> m)"
  define by_level where
    "by_level = (case map_of by_dungeon (dungeon_name row) of None \<Rightarrow> [] | Some m \<Rightarrow> m)"
  have bd: "\<forall>(d, lv) \<in> set by_dungeon. distinct (map fst lv)"
  proof (cases "by_dungeon = []")
    case True
    then show ?thesis by simp
  next
    case False
    then have "(character_id row, by_dungeon) \<in> set cs"
      using map_of_default_mem[of cs "character_id row" by_dungeon] by (simp add: by_dungeon_def)
    with assms show ?thesis by (auto simp: level_keys_distinct_def)
  qed
  have bl: "distinct (map fst by_level)"
  proof (cases "by_level = []")
    case True
    then show ?thesis by simp
  next
    case False
    then have "(dungeon_name row, by_level) \<in> set by_dungeon"
      using map_of_default_mem[of by_dungeon "dungeon_name row" by_level] by (simp add: by_level_def)
    with bd show ?thesis by auto
  qed
  let ?lv = "AList.update (difficulty_level row) row by_level"
  let ?bd = "AList.update (dungeon_name row) ?lv by_dungeon"
  have lv: "distinct (map fst ?lv)" using bl by (rule distinct_update)
  have bd': "\<forall>(d, l) \<in> set ?bd. distinct (map fst l)"
    using set_alist_update[of "dungeon_name row" ?lv by_dungeon] bd lv by auto
  have "store_completion row cs = AList.update (character_id row) ?bd cs"
    by (simp add: store_completion_def by_dungeon_def by_level_def Let_def)
  moreover have "distinct (map fst l)"
    if "(c, m) \<in> set (AList.update (character_id row) ?bd cs)" and "(d, l) \<in> set m" for c m d l
  proof -
    from that(1) have "(c, m) = (character_id row, ?bd) \<or> (c, m) \<in> set cs"
      using set_alist_update[of "character_id row" ?bd cs] by blast
    then show ?thesis
    proof
      assume "(c, m) = (character_id row, ?bd)"
      with that(2) bd' show ?thesis by blast
    next
      assume "(c, m) \<in> set cs"
      with that(2) assms show ?thesis unfolding level_keys_distinct_def by blast
    qed
  qed
  ultimately show ?thesis unfolding level_keys_distinct_def by (simp only: split_paired_all) blast
qed

lemma fold_store_completion_distinct:
  "level_keys_distinct cs \<Longrightarrow> level_keys_distinct (fold store_completion rows cs)"
  by (induction rows arbitrary: cs) (simp_all add: store_completion_distinct)

lemma load_level_keys_distinct: "level_keys_distinct (completions (load rows roster_rows))"
  using fold_store_completion_distinct[of "[]" rows]
  by (simp add: load_def level_keys_distinct_def)

lemma dungeon_levels_distinct:
  assumes "level_keys_distinct (completions repo)"
  shows "distinct (map fst (dungeon_levels repo cid d))"
proof (cases "dungeon_levels repo cid d = []")
  case True
  then show ?thesis by simp
next
  case False
  then obtain m where m: "(cid, m) \<in> set (completions repo)"
      and l: "(d, dungeon_levels repo cid d) \<in> set m"
    by (auto simp: dungeon_levels_def split: option.splits dest: map_of_SomeD)
  with assms show ?thesis by (auto simp: level_keys_distinct_def)
qed

lemma get_completion_iff_stored:
  assumes "level_keys_distinct (completions repo)"
  shows "get_completion repo cid d level = Some c \<longleftrightarrow> (level, c) \<in> set (dungeon_levels repo cid d)"
  using dungeon_levels_distinct[OF assms, of cid d] by (simp add: get_completion_def)

lemma load_get_completion_iff_stored:
  "get_completion (load rows roster_rows) cid d level = Some c \<longleftrightarrow>
     (level, c) \<in> set (dungeon_levels (load rows roster_rows) cid d)"
  by (rule get_completion_iff_stored) (rule load_level_keys_distinct)

section \<open>The resilience calculator\<close>

text \<open>
  Claim C1: for a non-empty duplicate-free dungeon list, when every dungeon of the list
  has at least one stored completion by the character with level in
  \<open>[min_level, max_level]\<close> and first-completion timestamp strictly before the query
  timestamp, \<open>calculate_resilience_level\<close> returns the minimum over the dungeons of the
  per-dungeon maximum qualifying level. The levels are those of the data model: the
  stored difficulty levels are positive, or else the lower bound is not negative (the
  callers pass the default 18).
\<close>

theorem calculate_resilience_level_min_of_maxima:
  assumes "dungeons \<noteq> []" and "distinct dungeons"
    and "\<forall>d\<in>set dungeons. qualifying_levels repo cid d min_level max_level timestamp \<noteq> []"
    and "0 \<le> min_level \<or>
         (\<forall>d\<in>set dungeons. \<forall>(level, compl)\<in>set (dungeon_levels repo cid d). 0 < level)"
  shows "calculate_resilience_level repo cid timestamp dungeons max_level min_level =
           Inr (Min ((\<lambda>d. Max (set (qualifying_levels repo cid d min_level max_level timestamp)))
                       ` set dungeons))"
proof -
  have "0 \<le> Max (set (qualifying_levels repo cid d min_level max_level timestamp))"
    if d: "d \<in> set dungeons" for d
  proof -
    let ?q = "qualifying_levels repo cid d min_level max_level timestamp"
    have ne: "?q \<noteq> []" using assms(3) d by blast
    then have m: "Max (set ?q) \<in> set ?q" by (intro Max_in) simp_all
    from assms(4) show ?thesis
    proof
      assume "0 \<le> min_level"
      with m qualifying_levels_range[of "Max (set ?q)" repo cid d min_level max_level timestamp]
      show ?thesis by simp
    next
      assume pos: "\<forall>d\<in>set dungeons. \<forall>(level, compl)\<in>set (dungeon_levels repo cid d). 0 < level"
      from m obtain compl where "(Max (set ?q), compl) \<in> set (dungeon_levels repo cid d)"
        by (auto simp: qualifying_levels_def)
      with pos d have "0 < Max (set ?q)" by blast
      then show ?thesis by simp
    qed
  qed
  then show ?thesis
    using calc_min_of_maxima[OF assms(1,2,3)] by blast
qed

theorem calculate_resilience_level_min_of_maxima_witness:
  "example_dungeons \<noteq> [] \<and> distinct example_dungeons \<and>
   qualifying_levels example_repo ''char1'' ''Dungeon A'' 18 25 ''2025-01-10T00:00:00.000Z'' = [20] \<and>
   qualifying_levels example_repo ''char1'' ''Dungeon B'' 18 25 ''2025-01-10T00:00:00.000Z'' = [21] \<and>
   qualifying_levels example_repo ''char1'' ''Dungeon C'' 18 25 ''2025-01-10T00:00:00.000Z'' = [20] \<and>
   calculate_resilience_level example_repo ''char1'' ''2025-01-10T00:00:00.000Z''
       example_dungeons 25 18 = Inr 20"
proof -
  have h1: "example_dungeons \<noteq> []" by code_simp
  have h2: "distinct example_dungeons" by code_simp
  have h3: "\<forall>d\<in>set example_dungeons.
      qualifying_levels example_repo ''char1'' d 18 25 ''2025-01-10T00:00:00.000Z'' \<noteq> []"
    by code_simp
  have h4: "(0::int) \<le> 18 \<or>
      (\<forall>d\<in>set example_dungeons.
         \<forall>(level, compl)\<in>set (dungeon_levels example_repo ''char1'' d). 0 < level)"
    by simp
  have v: "Min ((\<lambda>d. Max (set (qualifying_levels example_repo ''char1'' d 18 25
                                 ''2025-01-10T00:00:00.000Z''))) ` set example_dungeons) = 20"
    by code_simp
  have a: "qualifying_levels example_repo ''char1'' ''Dungeon A'' 18 25
             ''2025-01-10T00:00:00.000Z'' = [20]" by code_simp
  have b: "qualifying_levels example_repo ''char1'' ''Dungeon B'' 18 25
             ''2025-01-10T00:00:00.000Z'' = [21]" by code_simp
  have c: "qualifying_levels example_repo ''char1'' ''Dungeon C'' 18 25
             ''2025-01-10T00:00:00.000Z'' = [20]" by code_simp
  have "calculate_resilience_level example_repo ''char1'' ''2025-01-10T00:00:00.000Z''
          example_dungeons 25 18 = Inr 20"
    using calculate_resilience_level_min_of_maxima[OF h1 h2 h3 h4] v by simp
  with h1 h2 a b c show ?thesis by blast
qed

text \<open>
  Claim C2: if some dungeon of the list has no stored completion by the character with
  level in \<open>[min_level, max_level]\<close> and timestamp strictly before the query timestamp,
  \<open>calculate_resilience_level\<close> returns 0, whatever the character's levels in the other
  dungeons.
\<close>

theorem calculate_resilience_level_missing_dungeon:
  assumes "d \<in> set dungeons"
    and "qualifying_levels repo cid d min_level max_level timestamp = []"
  shows "calculate_resilience_level repo cid timestamp dungeons max_level min_level = Inr 0"
  using calc_some_missing[OF assms(1)] best_level_empty[OF assms(2)] by simp

theorem calculate_resilience_level_missing_dungeon_witness:
  "''Dungeon C'' \<in> set example_dungeons \<and>
   qualifying_levels example_repo ''char1'' ''Dungeon C'' 18 25 ''2025-01-03T00:00:00.000Z'' = [] \<and>
   qualifying_levels example_repo ''char1'' ''Dungeon B'' 18 25 ''2025-01-03T00:00:00.000Z'' = [21] \<and>
   calculate_resilience_level example_repo ''char1'' ''2025-01-03T00:00:00.000Z''
       example_dungeons 25 18 = Inr 0"
proof -
  have h1: "''Dungeon C'' \<in> set example_dungeons" by code_simp
  have h2: "qualifying_levels example_repo ''char1'' ''Dungeon C'' 18 25
              ''2025-01-03T00:00:00.000Z'' = []" by code_simp
  have h3: "qualifying_levels example_repo ''char1'' ''Dungeon B'' 18 25
              ''2025-01-03T00:00:00.000Z'' = [21]" by code_simp
  show ?thesis
    using calculate_resilience_level_missing_dungeon[OF h1 h2] h1 h2 h3 by simp
qed

text \<open>
  Claim C9: for a non-empty dungeon list the value returned by
  \<open>calculate_resilience_level\<close> is 0 or lies in \<open>[min_level, max_level]\<close>; the function
  returns a value and raises no error.
\<close>

theorem calculate_resilience_level_range:
  assumes "dungeons \<noteq> []"
  shows "\<exists>r. calculate_resilience_level repo cid timestamp dungeons max_level min_level = Inr r \<and>
             (r = 0 \<or> (min_level \<le> r \<and> r \<le> max_level))"
  using calc_range[OF assms, of repo cid timestamp max_level min_level] qualifying_levels_range
  by blast

theorem calculate_resilience_level_range_witness:
  "example_dungeons \<noteq> [] \<and>
   (\<exists>r. calculate_resilience_level example_repo ''char3'' ''2025-01-10T00:00:00.000Z''
           example_dungeons 25 18 = Inr r \<and> (r = 0 \<or> (18 \<le> r \<and> r \<le> 25)))"
proof -
  have h: "example_dungeons \<noteq> []" by code_simp
  show ?thesis
    using calculate_resilience_level_range[OF h, of example_repo "''char3''"
        "''2025-01-10T00:00:00.000Z''" 25 18] h by simp
qed

text \<open>
  Claim C10: if the dungeon list contains a duplicated dungeon name,
  \<open>calculate_resilience_level\<close> returns 0 for every character and timestamp, even when
  every distinct dungeon of the list has a qualifying completion.
\<close>

theorem calculate_resilience_level_duplicate_dungeon:
  assumes "\<not> distinct dungeons"
  shows "calculate_resilience_level repo cid timestamp dungeons max_level min_level = Inr 0"
  using get_max_length_dup[OF assms] by (simp add: calculate_resilience_level_def)

theorem calculate_resilience_level_duplicate_dungeon_witness:
  "\<not> distinct (example_dungeons @ [''Dungeon A'']) \<and>
   qualifying_levels example_repo ''char1'' ''Dungeon A'' 18 25 ''2025-01-10T00:00:00.000Z'' = [20] \<and>
   qualifying_levels example_repo ''char1'' ''Dungeon B'' 18 25 ''2025-01-10T00:00:00.000Z'' = [21] \<and>
   qualifying_levels example_repo ''char1'' ''Dungeon C'' 18 25 ''2025-01-10T00:00:00.000Z'' = [20] \<and>
   calculate_resilience_level example_repo ''char1'' ''2025-01-10T00:00:00.000Z''
       (example_dungeons @ [''Dungeon A'']) 25 18 = Inr 0"
proof -
  have h1: "\<not> distinct (example_dungeons @ [''Dungeon A''])" by code_simp
  have a: "qualifying_levels example_repo ''char1'' ''Dungeon A'' 18 25
             ''2025-01-10T00:00:00.000Z'' = [20]" by code_simp
  have b: "qualifying_levels example_repo ''char1'' ''Dungeon B'' 18 25
             ''2025-01-10T00:00:00.000Z'' = [21]" by code_simp
  have c: "qualifying_levels example_repo ''char1'' ''Dungeon C'' 18 25
             ''2025-01-10T00:00:00.000Z'' = [20]" by code_simp
  show ?thesis
    using calculate_resilience_level_duplicate_dungeon[OF h1] h1 a b c by blast
qed

text \<open>
  Claim C8 as stated fails: with an empty dungeon list neither function returns. In
  \<open>calculate_resilience_level\<close> the test \<open>len(max_levels) < len(dungeons)\<close> is
  \<open>0 < 0\<close>, so \<open>min()\<close> is applied to no values; in
  \<open>find_resilience_achievement_date\<close> the loop body never runs and \<open>max()\<close> is applied
  to the empty list.
\<close>

theorem empty_dungeon_list_counterexample:
  "calculate_resilience_level example_repo ''char1'' ''2025-01-10T00:00:00.000Z'' [] 25 18 \<noteq> Inr 0 \<and>
   find_resilience_achievement_date example_repo ''char1'' 20 [] \<noteq> Inr None"
  by code_simp

text \<open>
  Claim C8 (amended): called with an empty dungeon list, \<open>calculate_resilience_level\<close>
  and \<open>find_resilience_achievement_date\<close> both raise \<open>ValueError\<close>, for every
  character, timestamp and level bounds: the empty list is a violated precondition, not a
  special case.
\<close>

theorem empty_dungeon_list_raises:
  "calculate_resilience_level repo cid timestamp [] max_level min_level = Inl ValueError \<and>
   find_resilience_achievement_date repo cid min_level [] = Inl ValueError"
  by (simp add: calculate_resilience_level_def get_max_level_by_dungeon_def
        find_resilience_achievement_date_def)

text \<open>
  Claim C3: with the stored timestamps ISO 8601 strings and a non-empty dungeon list,
  \<open>find_resilience_achievement_date\<close> returns none exactly when some dungeon of the list
  has no stored completion by the character at a level of at least \<open>min_level\<close>;
  otherwise it returns the first ten characters (the date \<open>YYYY-MM-DD\<close>) of the maximum
  over the dungeons of the earliest timestamp of such a completion.
\<close>

theorem find_resilience_achievement_date_latest_of_earliest:
  assumes "dungeons \<noteq> []"
    and "\<forall>d\<in>set dungeons. \<forall>t\<in>set (qualifying_dates repo cid d min_level). iso8601_shaped t"
  shows "find_resilience_achievement_date repo cid min_level dungeons =
           Inr (if \<exists>d\<in>set dungeons. qualifying_dates repo cid d min_level = [] then None
                else Some (take 10 (Max ((\<lambda>d. Min (set (qualifying_dates repo cid d min_level)))
                                           ` set dungeons))))"
proof (cases "\<exists>d\<in>set dungeons. qualifying_dates repo cid d min_level = []")
  case True
  then obtain d where "d \<in> set dungeons" "get_min_completion_date repo cid d min_level = None"
    by (auto simp: get_min_completion_date_Min)
  then have "completion_dates_loop repo cid min_level dungeons [] = None"
    by (rule completion_dates_loop_missing)
  with True show ?thesis by (simp add: find_resilience_achievement_date_def)
next
  case False
  let ?e = "\<lambda>d. Min (set (qualifying_dates repo cid d min_level))"
  have mem: "?e d \<in> set (qualifying_dates repo cid d min_level)" if "d \<in> set dungeons" for d
    using False that by (intro Min_in) auto
  have shaped: "iso8601_shaped (?e d)" if "d \<in> set dungeons" for d
    using assms(2) mem[OF that] that by blast
  have get: "get_min_completion_date repo cid d min_level = Some (?e d)" if "d \<in> set dungeons" for d
    using False that by (auto simp: get_min_completion_date_Min)
  have "\<forall>d\<in>set dungeons. \<exists>t. get_min_completion_date repo cid d min_level = Some t \<and> t \<noteq> []"
    using get shaped iso8601_nonempty by blast
  then have "completion_dates_loop repo cid min_level dungeons [] =
               Some (map (\<lambda>d. the (get_min_completion_date repo cid d min_level)) dungeons)"
    using completion_dates_loop_all[of dungeons repo cid min_level "[]"] by simp
  also have "map (\<lambda>d. the (get_min_completion_date repo cid d min_level)) dungeons = map ?e dungeons"
    using get by simp
  finally have loop: "completion_dates_loop repo cid min_level dungeons [] = Some (map ?e dungeons)" .
  have mx: "py_max (map ?e dungeons) = Inr (Max (?e ` set dungeons))"
    using assms(1) py_max_Max[of "map ?e dungeons"] by simp
  have "Max (?e ` set dungeons) \<in> ?e ` set dungeons"
    using assms(1) by (intro Max_in) auto
  then have "iso8601_shaped (Max (?e ` set dungeons))"
    using shaped by auto
  then have "hd (py_split CHR ''T'' (Max (?e ` set dungeons))) = take 10 (Max (?e ` set dungeons))"
    by (rule iso8601_date)
  with False loop mx show ?thesis
    by (simp add: find_resilience_achievement_date_def)
qed

theorem find_resilience_achievement_date_latest_of_earliest_witness:
  "example_dungeons \<noteq> [] \<and>
   qualifying_dates example_repo ''char1'' ''Dungeon A'' 20 = [''2025-01-01T12:00:00.000Z''] \<and>
   qualifying_dates example_repo ''char1'' ''Dungeon B'' 20 = [''2025-01-02T12:00:00.000Z''] \<and>
   qualifying_dates example_repo ''char1'' ''Dungeon C'' 20 = [''2025-01-03T12:00:00.000Z''] \<and>
   iso8601_shaped ''2025-01-01T12:00:00.000Z'' \<and>
   iso8601_shaped ''2025-01-02T12:00:00.000Z'' \<and>
   iso8601_shaped ''2025-01-03T12:00:00.000Z'' \<and>
   find_resilience_achievement_date example_repo ''char1'' 20 example_dungeons =
     Inr (Some ''2025-01-03'')"
proof -
  have h1: "example_dungeons \<noteq> []" by code_simp
  have h2: "\<forall>d\<in>set example_dungeons. \<forall>t\<in>set (qualifying_dates example_repo ''char1'' d 20).
      iso8601_shaped t" by code_simp
  have v: "(if \<exists>d\<in>set example_dungeons. qualifying_dates example_repo ''char1'' d 20 = [] then None
            else Some (take 10 (Max ((\<lambda>d. Min (set (qualifying_dates example_repo ''char1'' d 20)))
                                       ` set example_dungeons)))) = Some ''2025-01-03''"
    by code_simp
  have a: "qualifying_dates example_repo ''char1'' ''Dungeon A'' 20 = [''2025-01-01T12:00:00.000Z'']"
    by code_simp
  have b: "qualifying_dates example_repo ''char1'' ''Dungeon B'' 20 = [''2025-01-02T12:00:00.000Z'']"
    by code_simp
  have c: "qualifying_dates example_repo ''char1'' ''Dungeon C'' 20 = [''2025-01-03T12:00:00.000Z'']"
    by code_simp
  have s1: "iso8601_shaped ''2025-01-01T12:00:00.000Z''" by code_simp
  have s2: "iso8601_shaped ''2025-01-02T12:00:00.000Z''" by code_simp
  have s3: "iso8601_shaped ''2025-01-03T12:00:00.000Z''" by code_simp
  have "find_resilience_achievement_date example_repo ''char1'' 20 example_dungeons =
          Inr (Some ''2025-01-03'')"
    using find_resilience_achievement_date_latest_of_earliest[OF h1 h2] v by simp
  with h1 a b c s1 s2 s3 show ?thesis by blast
qed

section \<open>The propagation graph builder\<close>

text \<open>
  Claim C4: in \<open>build_edges\<close>, for a character of the character list and a dungeon of
  the dungeon list with a completion at exactly \<open>target_level\<close>, the completion is
  skipped (the test \<open>has_higher_completion\<close> succeeds) if and only if the character has
  a stored completion in that dungeon at a strictly greater level with a strictly earlier
  first-completion timestamp; a skipped completion contributes no edge for this character
  and dungeon, and otherwise the edges for this character and dungeon are those of the
  scan of the completion's roster.
\<close>

theorem build_edges_supersession:
  assumes "build_edges repo characters resilient_timestamps dungeons target_level max_level =
             Inr (res, nres)"
    and "cid \<in> set characters" and "d \<in> set dungeons"
    and "get_completion repo cid d target_level = Some completion"
  shows "(has_higher_completion repo cid d target_level (first_completed completion) \<longleftrightarrow>
            (\<exists>(level, compl) \<in> set (dungeon_levels repo cid d).
               target_level < level \<and> first_completed compl < first_completed completion)) \<and>
         {e \<in> set res \<union> set nres. target e = cid \<and> dungeon e = d} =
            (if has_higher_completion repo cid d target_level (first_completed completion)
             then {}
             else set (scan_roster repo dungeons target_level max_level cid d completion))"
proof -
  let ?E = "emitted_edges repo characters dungeons target_level max_level"
  have u: "set res \<union> set nres = set ?E"
    using build_edges_sets[OF assms(1)] by auto
  have "{e \<in> set ?E. target e = cid \<and> dungeon e = d} =
          set (completion_edges repo dungeons target_level max_level cid d)"
    using assms(2,3)
    by (auto simp: emitted_edges_iff completion_edges_target completion_edges_dungeon)
  also have "\<dots> = (if has_higher_completion repo cid d target_level (first_completed completion)
                     then {}
                     else set (scan_roster repo dungeons target_level max_level cid d completion))"
    using assms(4) by (simp add: completion_edges_def has_higher_superseded)
  finally show ?thesis
    by (simp add: u has_higher_superseded superseded_def)
qed

theorem build_edges_supersession_witness:
  "build_edges superseded_repo example_characters example_timestamps example_dungeons 20 25 =
     Inr ([], []) \<and>
   ''char2'' \<in> set example_characters \<and> ''Dungeon A'' \<in> set example_dungeons \<and>
   get_completion superseded_repo ''char2'' ''Dungeon A'' 20 =
     Some (mk_completion ''char2'' ''Dungeon A'' 20 ''2025-01-04T12:00:00.000Z'' ''run4'') \<and>
   has_higher_completion superseded_repo ''char2'' ''Dungeon A'' 20 ''2025-01-04T12:00:00.000Z'' \<and>
   (\<exists>(level, compl) \<in> set (dungeon_levels superseded_repo ''char2'' ''Dungeon A'').
      20 < level \<and> first_completed compl < ''2025-01-04T12:00:00.000Z'') \<and>
   build_edges example_repo example_characters example_timestamps example_dungeons 20 25 =
     Inr ([], [example_edge]) \<and>
   get_completion example_repo ''char2'' ''Dungeon A'' 20 =
     Some (mk_completion ''char2'' ''Dungeon A'' 20 ''2025-01-04T12:00:00.000Z'' ''run4'') \<and>
   \<not> has_higher_completion example_repo ''char2'' ''Dungeon A'' 20 ''2025-01-04T12:00:00.000Z'' \<and>
   set (scan_roster example_repo example_dungeons 20 25 ''char2'' ''Dungeon A''
          (mk_completion ''char2'' ''Dungeon A'' 20 ''2025-01-04T12:00:00.000Z'' ''run4'')) =
     {e \<in> set [] \<union> set [example_edge]. target e = ''char2'' \<and> dungeon e = ''Dungeon A''}"
proof -
  let ?c = "mk_completion ''char2'' ''Dungeon A'' 20 ''2025-01-04T12:00:00.000Z'' ''run4''"
  have fc: "first_completed ?c = ''2025-01-04T12:00:00.000Z''" by (simp add: mk_completion_def)
  have b1: "build_edges superseded_repo example_characters example_timestamps example_dungeons
              20 25 = Inr ([], [])" by code_simp
  have b2: "build_edges example_repo example_characters example_timestamps example_dungeons
              20 25 = Inr ([], [example_edge])" by code_simp
  have m1: "''char2'' \<in> set example_characters" by code_simp
  have m2: "''Dungeon A'' \<in> set example_dungeons" by code_simp
  have g1: "get_completion superseded_repo ''char2'' ''Dungeon A'' 20 = Some ?c" by code_simp
  have g2: "get_completion example_repo ''char2'' ''Dungeon A'' 20 = Some ?c" by code_simp
  have h1: "has_higher_completion superseded_repo ''char2'' ''Dungeon A'' 20
              ''2025-01-04T12:00:00.000Z''" by code_simp
  have h2: "\<not> has_higher_completion example_repo ''char2'' ''Dungeon A'' 20
              ''2025-01-04T12:00:00.000Z''" by code_simp
  from build_edges_supersession[OF b1 m1 m2 g1] h1
  have s1: "\<exists>(level, compl) \<in> set (dungeon_levels superseded_repo ''char2'' ''Dungeon A'').
      20 < level \<and> first_completed compl < ''2025-01-04T12:00:00.000Z''"
    by (simp only: fc)
  from build_edges_supersession[OF b2 m1 m2 g2] h2
  have s2: "set (scan_roster example_repo example_dungeons 20 25 ''char2'' ''Dungeon A'' ?c) =
     {e \<in> set [] \<union> set [example_edge]. target e = ''char2'' \<and> dungeon e = ''Dungeon A''}"
    by (simp only: fc if_False)
  from b1 b2 m1 m2 g1 g2 h1 h2 s1 s2 show ?thesis by blast
qed

text \<open>
  Claim C5: \<open>build_edges\<close> returns two lists; every edge of \<open>resilient_edges\<close> has a
  target that is a key of \<open>resilient_timestamps\<close> and every edge of
  \<open>non_resilient_edges\<close> a target that is not, so the bucket depends on the target
  character's membership alone. An edge is emitted exactly when, for a character \<open>C\<close> of
  the character list and a dungeon \<open>D\<close> of the dungeon list, \<open>C\<close> has a completion of
  \<open>D\<close> at \<open>target_level\<close> that is not skipped, the source \<open>O\<close> is a member of the
  completion's roster other than \<open>C\<close>, and the resilience level of \<open>O\<close> computed at the
  completion's timestamp over the full dungeon list is at least \<open>target_level\<close>.
\<close>

theorem build_edges_buckets:
  "\<exists>res nres.
     build_edges repo characters resilient_timestamps dungeons target_level max_level =
       Inr (res, nres) \<and>
     (\<forall>e\<in>set res. resilient_timestamps (target e) \<noteq> None) \<and>
     (\<forall>e\<in>set nres. resilient_timestamps (target e) = None) \<and>
     (\<forall>e. e \<in> set res \<union> set nres \<longleftrightarrow>
        (\<exists>cid\<in>set characters. \<exists>d\<in>set dungeons. \<exists>completion r.
           get_completion repo cid d target_level = Some completion \<and>
           \<not> has_higher_completion repo cid d target_level (first_completed completion) \<and>
           source e \<in> set (get_roster repo (run_id completion)) \<and> source e \<noteq> cid \<and>
           calculate_resilience_level repo (source e) (first_completed completion) dungeons
             max_level default_min_level = Inr r \<and> target_level \<le> r \<and>
           e = \<lparr>source = source e, target = cid, dungeon = d,
                 edge_run_id = run_id completion\<rparr>))"
proof -
  let ?E = "emitted_edges repo characters dungeons target_level max_level"
  let ?res = "filter (\<lambda>e. resilient_timestamps (target e) \<noteq> None) ?E"
  let ?nres = "filter (\<lambda>e. resilient_timestamps (target e) = None) ?E"
  have b: "build_edges repo characters resilient_timestamps dungeons target_level max_level =
             Inr (?res, ?nres)"
    by (rule build_edges_eq)
  have u: "set ?res \<union> set ?nres = set ?E" by auto
  have "\<forall>e. e \<in> set ?res \<union> set ?nres \<longleftrightarrow>
        (\<exists>cid\<in>set characters. \<exists>d\<in>set dungeons. \<exists>completion r.
           get_completion repo cid d target_level = Some completion \<and>
           \<not> has_higher_completion repo cid d target_level (first_completed completion) \<and>
           source e \<in> set (get_roster repo (run_id completion)) \<and> source e \<noteq> cid \<and>
           calculate_resilience_level repo (source e) (first_completed completion) dungeons
             max_level default_min_level = Inr r \<and> target_level \<le> r \<and>
           e = \<lparr>source = source e, target = cid, dungeon = d,
                 edge_run_id = run_id completion\<rparr>)"
    unfolding u emitted_edges_iff completion_edges_iff by blast
  moreover have "\<forall>e\<in>set ?res. resilient_timestamps (target e) \<noteq> None" by simp
  moreover have "\<forall>e\<in>set ?nres. resilient_timestamps (target e) = None" by simp
  ultimately show ?thesis using b by blast
qed

theorem build_edges_buckets_witness:
  "build_edges example_repo example_characters example_timestamps example_dungeons 20 25 =
     Inr ([], [example_edge]) \<and>
   example_timestamps (source example_edge) \<noteq> None \<and>
   example_timestamps (target example_edge) = None"
proof -
  have b: "build_edges example_repo example_characters example_timestamps example_dungeons
             20 25 = Inr ([], [example_edge])" by code_simp
  have s: "example_timestamps (source example_edge) \<noteq> None" by code_simp
  from build_edges_buckets[of example_repo example_characters example_timestamps
         example_dungeons 20 25] b
  have "\<forall>e\<in>set [example_edge]. example_timestamps (target e) = None" by auto
  then have "example_timestamps (target example_edge) = None" by simp
  with b s show ?thesis by blast
qed

text \<open>
  Claim C6: every edge of either list returned by \<open>build_edges\<close> has a source different
  from its target, its source is a member of the roster of the edge's run, and its run is
  the run of the target character's completion of the edge's dungeon at exactly
  \<open>target_level\<close>.
\<close>

theorem build_edges_edge_invariant:
  assumes "build_edges repo characters resilient_timestamps dungeons target_level max_level =
             Inr (res, nres)"
    and "e \<in> set res \<union> set nres"
  shows "source e \<noteq> target e \<and>
         source e \<in> set (get_roster repo (edge_run_id e)) \<and>
         (\<exists>completion. get_completion repo (target e) (dungeon e) target_level = Some completion \<and>
                        edge_run_id e = run_id completion)"
proof -
  from build_edges_sets[OF assms(1)] assms(2)
  have "e \<in> set (emitted_edges repo characters dungeons target_level max_level)" by auto
  then obtain cid d completion where
    g: "get_completion repo cid d target_level = Some completion" and
    r: "source e \<in> set (get_roster repo (run_id completion))" and
    n: "source e \<noteq> cid" and
    e: "e = \<lparr>source = source e, target = cid, dungeon = d, edge_run_id = run_id completion\<rparr>"
    unfolding emitted_edges_iff completion_edges_iff by blast
  from e have t: "target e = cid" and dd: "dungeon e = d" and rr: "edge_run_id e = run_id completion"
    by (metis PropagationEdge.select_convs)+
  show ?thesis using g r n t dd rr by simp
qed

theorem build_edges_edge_invariant_witness:
  "build_edges example_repo example_characters example_timestamps example_dungeons 20 25 =
     Inr ([], [example_edge]) \<and>
   example_edge \<in> set [] \<union> set [example_edge] \<and>
   source example_edge \<noteq> target example_edge \<and>
   source example_edge \<in> set (get_roster example_repo (edge_run_id example_edge)) \<and>
   (\<exists>completion. get_completion example_repo (target example_edge) (dungeon example_edge) 20 =
                    Some completion \<and>
                  edge_run_id example_edge = run_id completion)"
proof -
  have b: "build_edges example_repo example_characters example_timestamps example_dungeons
             20 25 = Inr ([], [example_edge])" by code_simp
  have m: "example_edge \<in> set [] \<union> set [example_edge]" by simp
  from build_edges_edge_invariant[OF b m] b m show ?thesis by blast
qed



end
